theory Spec2Isabelle
  imports Main "HOL-Library.Product_Lexorder"
begin

section \<open>Python strings\<close>

text \<open>
  A Python \<^verbatim>\<open>str\<close> is a sequence of Unicode code points. A code point is a natural
  number here, so that the characters \<^verbatim>\<open>str.splitlines\<close> and \<^verbatim>\<open>str.strip\<close> treat
  specially beyond ASCII (U+0085, U+00A0, U+2028, ...) are single elements, as in Python.
  \<open>py\<close> turns an ASCII literal into such a string.
\<close>

type_synonym pystr = "nat list"

definition py :: "string \<Rightarrow> pystr" where
  "py s = map of_char s"

definition LF :: nat where "LF = 0x0A"
definition CR :: nat where "CR = 0x0D"

text \<open>The line boundaries of \<^verbatim>\<open>str.splitlines\<close>: LF, VT, FF, CR, FS, GS, RS, NEL, LS, PS.\<close>

definition is_linebreak :: "nat \<Rightarrow> bool" where
  "is_linebreak c = (c = 0x0A \<or> c = 0x0B \<or> c = 0x0C \<or> c = 0x0D \<or> c = 0x1C \<or> c = 0x1D
     \<or> c = 0x1E \<or> c = 0x85 \<or> c = 0x2028 \<or> c = 0x2029)"

text \<open>The characters \<^verbatim>\<open>str.isspace\<close> accepts, which \<^verbatim>\<open>str.strip()\<close> removes.\<close>

definition isspace :: "nat \<Rightarrow> bool" where
  "isspace c = ((0x09 \<le> c \<and> c \<le> 0x0D) \<or> (0x1C \<le> c \<and> c \<le> 0x20) \<or> c = 0x85 \<or> c = 0xA0
     \<or> c = 0x1680 \<or> (0x2000 \<le> c \<and> c \<le> 0x200A) \<or> c = 0x2028 \<or> c = 0x2029
     \<or> c = 0x202F \<or> c = 0x205F \<or> c = 0x3000)"

text \<open>
  \<^verbatim>\<open>str.splitlines()\<close> (keepends False): scan to the next line boundary, emit the line
  before it, skip the boundary reading CR LF as one; a string that ends with a boundary has
  no empty last line. \<open>cur\<close> holds the characters of the line being scanned.
\<close>

fun splitlines_from :: "pystr \<Rightarrow> pystr \<Rightarrow> pystr list" where
  "splitlines_from cur [] = (if cur = [] then [] else [cur])"
| "splitlines_from cur (c # cs) =
     (if c = CR \<and> cs \<noteq> [] \<and> hd cs = LF then cur # splitlines_from [] (tl cs)
      else if is_linebreak c then cur # splitlines_from [] cs
      else splitlines_from (cur @ [c]) cs)"

definition splitlines :: "pystr \<Rightarrow> pystr list" where
  "splitlines s = splitlines_from [] s"

text \<open>\<^verbatim>\<open>str.strip()\<close>: drop the whitespace at the left end, then at the right end.\<close>

definition strip :: "pystr \<Rightarrow> pystr" where
  "strip s = rev (dropWhile isspace (rev (dropWhile isspace s)))"

text \<open>\<^verbatim>\<open>sep.join(xs)\<close>.\<close>

fun join :: "pystr \<Rightarrow> pystr list \<Rightarrow> pystr" where
  "join sep [] = []"
| "join sep [x] = x"
| "join sep (x # y # ys) = x @ sep @ join sep (y # ys)"

section \<open>The normalizer\<close>

text \<open>
  \<^verbatim>\<open>
  def normalize_text(text):
      lines = [line.strip() for line in text.splitlines()]
      lines = [ln for ln in lines if ln]
      return "\n".join(lines)
  \<close>
\<close>

definition normalize_text :: "pystr \<Rightarrow> pystr" where
  "normalize_text text =
     (let lines = map strip (splitlines text);
          lines = filter (\<lambda>ln. ln \<noteq> []) lines
      in join [LF] lines)"

text \<open>
  The reference definition, from the specification's words: split into lines, trim leading
  and trailing whitespace per line, discard lines that become empty, rejoin with a single
  newline separator. It is written without Python's library functions: every line boundary
  character separates two lines (so a CR LF pair encloses an empty line, and a final
  boundary is followed by an empty last line), and trimming is by counting the whitespace
  at both ends.
\<close>

fun split_at_boundaries :: "pystr \<Rightarrow> pystr list" where
  "split_at_boundaries [] = [[]]"
| "split_at_boundaries (c # cs) =
     (if is_linebreak c then [] # split_at_boundaries cs
      else (case split_at_boundaries cs of
              [] \<Rightarrow> [[c]]
            | l # ls \<Rightarrow> (c # l) # ls))"

definition trim :: "pystr \<Rightarrow> pystr" where
  "trim s =
     (let lead = length (takeWhile isspace s);
          rest = drop lead s;
          trail = length (takeWhile isspace (rev rest))
      in take (length rest - trail) rest)"

fun rejoin :: "pystr list \<Rightarrow> pystr" where
  "rejoin [] = []"
| "rejoin (l # ls) = (if ls = [] then l else l @ LF # rejoin ls)"

definition normalize_text_reference :: "pystr \<Rightarrow> pystr" where
  "normalize_text_reference text =
     rejoin (filter (\<lambda>l. l \<noteq> []) (map trim (split_at_boundaries text)))"

section \<open>The diff generator\<close>

subsection \<open>difflib.SequenceMatcher\<close>

text \<open>
  \<^verbatim>\<open>generate_diff\<close> calls \<^verbatim>\<open>difflib.unified_diff(old_lines, new_lines, lineterm="")\<close>,
  which runs \<^verbatim>\<open>SequenceMatcher(None, a, b)\<close>: no junk predicate, \<^verbatim>\<open>autojunk\<close> True.
  The definitions below follow CPython 3.11's \<^verbatim>\<open>Lib/difflib.py\<close>, function by function.
  Indices are natural numbers; where Python subtracts, the model notes why the difference
  is not negative or writes the negative case out.
\<close>

text \<open>
  \<^verbatim>\<open>__chain_b\<close>: \<^verbatim>\<open>b2j\<close> maps each element of \<open>b\<close> to the increasing list of its
  indices. With \<^verbatim>\<open>isjunk\<close> None the junk set stays empty. When \<open>b\<close> has 200 elements or
  more, the elements occurring more than \<^verbatim>\<open>n // 100 + 1\<close> times are deleted from
  \<^verbatim>\<open>b2j\<close>. The dictionary is read only through \<^verbatim>\<open>b2j.get(elt, [])\<close>, which is the
  function defined here.
\<close>

definition indices_of :: "'a list \<Rightarrow> 'a \<Rightarrow> nat list" where
  "indices_of b elt = filter (\<lambda>i. b ! i = elt) [0..<length b]"

definition chain_b :: "'a list \<Rightarrow> 'a \<Rightarrow> nat list" where
  "chain_b b elt =
     (let n = length b; idxs = indices_of b elt
      in if n \<ge> 200 \<and> length idxs > n div 100 + 1 then [] else idxs)"

text \<open>\<^verbatim>\<open>bjunk.__contains__\<close>: the junk set is empty.\<close>

definition isbjunk :: "'a \<Rightarrow> bool" where
  "isbjunk elt = False"

text \<open>
  The inner loop of \<^verbatim>\<open>find_longest_match\<close>, over the indices \<open>j\<close> of \<open>b\<close> that hold
  \<open>a[i]\<close>:
  \<^verbatim>\<open>
  for j in b2j.get(a[i], nothing):
      if j < blo: continue
      if j >= bhi: break
      k = newj2len[j] = j2lenget(j-1, 0) + 1
      if k > bestsize:
          besti, bestj, bestsize = i-k+1, j-k+1, k
  \<close>
  \<open>j2len\<close> is a dictionary; the key \<open>j - 1\<close> is \<open>-1\<close> for \<open>j = 0\<close> and is then absent.
  A run of length \<open>k\<close> ending at \<open>i\<close> and \<open>j\<close> starts at \<open>i - k + 1\<close> and \<open>j - k + 1\<close>,
  written \<open>i + 1 - k\<close> and \<open>j + 1 - k\<close>: the run lies inside the two sequences, so \<open>k\<close> is at
  most \<open>i + 1\<close> and \<open>j + 1\<close>.
\<close>

type_synonym best = "nat \<times> nat \<times> nat"

definition j2lenget :: "(nat \<rightharpoonup> nat) \<Rightarrow> nat \<Rightarrow> nat" where
  "j2lenget j2len j = (if j = 0 then 0 else (case j2len (j - 1) of None \<Rightarrow> 0 | Some v \<Rightarrow> v))"

fun scan_row :: "nat \<Rightarrow> nat \<Rightarrow> nat \<Rightarrow> (nat \<rightharpoonup> nat) \<Rightarrow> nat list
    \<Rightarrow> (nat \<rightharpoonup> nat) \<times> best \<Rightarrow> (nat \<rightharpoonup> nat) \<times> best" where
  "scan_row i blo bhi j2len [] st = st"
| "scan_row i blo bhi j2len (j # js) (newj2len, besti, bestj, bestsize) =
     (if j < blo then scan_row i blo bhi j2len js (newj2len, besti, bestj, bestsize)
      else if j \<ge> bhi then (newj2len, besti, bestj, bestsize)
      else (let k = j2lenget j2len j + 1;
                newj2len' = newj2len(j \<mapsto> k)
            in if k > bestsize
               then scan_row i blo bhi j2len js (newj2len', i + 1 - k, j + 1 - k, k)
               else scan_row i blo bhi j2len js (newj2len', besti, bestj, bestsize)))"

text \<open>
  The outer loop, \<^verbatim>\<open>for i in range(alo, ahi)\<close>, with \<^verbatim>\<open>j2len = newj2len\<close> at the end
  of each round.
\<close>

fun scan_rows :: "'a list \<Rightarrow> ('a \<Rightarrow> nat list) \<Rightarrow> nat \<Rightarrow> nat \<Rightarrow> nat list
    \<Rightarrow> (nat \<rightharpoonup> nat) \<times> best \<Rightarrow> (nat \<rightharpoonup> nat) \<times> best" where
  "scan_rows a b2j blo bhi [] st = st"
| "scan_rows a b2j blo bhi (i # is) (j2len, bst) =
     scan_rows a b2j blo bhi is (scan_row i blo bhi j2len (b2j (a ! i)) (Map.empty, bst))"

text \<open>
  The two extension loops, run first over non-junk and then over junk elements:
  \<^verbatim>\<open>
  while besti > alo and bestj > blo and P(b[bestj-1]) and a[besti-1] == b[bestj-1]:
      besti, bestj, bestsize = besti-1, bestj-1, bestsize+1
  while besti+bestsize < ahi and bestj+bestsize < bhi and P(b[bestj+bestsize]) \
        and a[besti+bestsize] == b[bestj+bestsize]:
      bestsize += 1
  \<close>
\<close>

fun extend_left :: "('a \<Rightarrow> bool) \<Rightarrow> 'a list \<Rightarrow> 'a list \<Rightarrow> nat \<Rightarrow> nat \<Rightarrow> best \<Rightarrow> best" where
  "extend_left P a b alo blo (besti, bestj, bestsize) =
     (if besti > alo \<and> bestj > blo \<and> P (b ! (bestj - 1)) \<and> a ! (besti - 1) = b ! (bestj - 1)
      then extend_left P a b alo blo (besti - 1, bestj - 1, bestsize + 1)
      else (besti, bestj, bestsize))"

function extend_right :: "('a \<Rightarrow> bool) \<Rightarrow> 'a list \<Rightarrow> 'a list \<Rightarrow> nat \<Rightarrow> nat \<Rightarrow> best \<Rightarrow> best" where
  "extend_right P a b ahi bhi (besti, bestj, bestsize) =
     (if besti + bestsize < ahi \<and> bestj + bestsize < bhi \<and> P (b ! (bestj + bestsize))
         \<and> a ! (besti + bestsize) = b ! (bestj + bestsize)
      then extend_right P a b ahi bhi (besti, bestj, bestsize + 1)
      else (besti, bestj, bestsize))"
  by pat_completeness auto
termination
  by (relation "measure (\<lambda>(P, a, b, ahi, bhi, besti, bestj, bestsize). ahi - (besti + bestsize))") auto

declare extend_left.simps [simp del]
declare extend_right.simps [simp del]

text \<open>
  \<^verbatim>\<open>find_longest_match(alo, ahi, blo, bhi)\<close>: the longest block found through \<^verbatim>\<open>b2j\<close>,
  extended at both ends by non-junk elements, then by junk elements.
\<close>

definition find_longest_match :: "'a list \<Rightarrow> 'a list \<Rightarrow> ('a \<Rightarrow> nat list) \<Rightarrow> nat \<Rightarrow> nat \<Rightarrow> nat \<Rightarrow> nat \<Rightarrow> best" where
  "find_longest_match a b b2j alo ahi blo bhi =
     (let bst = snd (scan_rows a b2j blo bhi [alo..<ahi] (Map.empty, alo, blo, 0));
          bst = extend_left (\<lambda>x. \<not> isbjunk x) a b alo blo bst;
          bst = extend_right (\<lambda>x. \<not> isbjunk x) a b ahi bhi bst;
          bst = extend_left isbjunk a b alo blo bst;
          bst = extend_right isbjunk a b ahi bhi bst
      in bst)"

text \<open>
  The result of \<^verbatim>\<open>find_longest_match\<close> lies in the region it was asked about. While row
  \<open>i\<close> is scanned, every run recorded in \<open>j2len\<close> started at \<open>alo\<close> or after it.
\<close>

definition row_inv :: "nat \<Rightarrow> nat \<Rightarrow> (nat \<rightharpoonup> nat) \<times> best \<Rightarrow> bool" where
  "row_inv alo m st =
     (case st of (j2len, besti, bestj, bestsize) \<Rightarrow>
        alo \<le> besti \<and> besti + bestsize \<le> m \<and> (\<forall>j v. j2len j = Some v \<longrightarrow> v + alo \<le> m))"

lemma j2lenget_le: "\<forall>j v. j2len j = Some v \<longrightarrow> v + alo \<le> i \<Longrightarrow> alo \<le> i \<Longrightarrow> j2lenget j2len j + alo \<le> i"
  by (auto simp: j2lenget_def split: option.splits)

lemma scan_row_inv:
  assumes "alo \<le> i" and "\<forall>j v. j2len j = Some v \<longrightarrow> v + alo \<le> i"
  shows "row_inv alo (Suc i) st \<Longrightarrow> row_inv alo (Suc i) (scan_row i blo bhi j2len js st)"
proof (induction js arbitrary: st)
  case Nil
  then show ?case by simp
next
  case (Cons j js)
  obtain newj2len besti bestj bestsize where st: "st = (newj2len, besti, bestj, bestsize)"
    by (cases st) auto
  define k where "k = j2lenget j2len j + 1"
  have k: "k + alo \<le> Suc i"
    using j2lenget_le[OF assms(2,1), of j] by (simp add: k_def)
  have upd: "row_inv alo (Suc i) (newj2len(j \<mapsto> k), i + 1 - k, j + 1 - k, k)"
    using Cons.prems k by (auto simp: row_inv_def st)
  have keep: "row_inv alo (Suc i) (newj2len(j \<mapsto> k), besti, bestj, bestsize)"
    using Cons.prems k by (auto simp: row_inv_def st)
  have eq: "scan_row i blo bhi j2len (j # js) st =
      (if j < blo then scan_row i blo bhi j2len js st
       else if j \<ge> bhi then st
       else if k > bestsize then scan_row i blo bhi j2len js (newj2len(j \<mapsto> k), i + 1 - k, j + 1 - k, k)
       else scan_row i blo bhi j2len js (newj2len(j \<mapsto> k), besti, bestj, bestsize))"
    by (simp add: st k_def Let_def)
  show ?case
    unfolding eq
    using Cons.IH[OF upd] Cons.IH[OF keep] Cons.IH[OF Cons.prems] Cons.prems
    by simp
qed

lemma scan_rows_inv:
  "alo \<le> m \<Longrightarrow> row_inv alo m st \<Longrightarrow> row_inv alo (max m n) (scan_rows a b2j blo bhi [m..<n] st)"
proof (induction "n - m" arbitrary: m st)
  case 0
  then show ?case by (simp add: max_def)
next
  case (Suc d)
  then have mn: "m < n" by simp
  obtain j2len bst where st: "st = (j2len, bst)" by (cases st) auto
  obtain besti bestj bestsize where bst: "bst = (besti, bestj, bestsize)" by (cases bst) auto
  have old: "\<forall>j v. j2len j = Some v \<longrightarrow> v + alo \<le> m"
    using Suc.prems(2) by (simp add: row_inv_def st bst)
  have "row_inv alo (Suc m) (Map.empty, bst)"
    using Suc.prems(2) by (simp add: row_inv_def st bst)
  then have step: "row_inv alo (Suc m) (scan_row m blo bhi j2len (b2j (a ! m)) (Map.empty, bst))"
    by (rule scan_row_inv[OF Suc.prems(1) old])
  have "row_inv alo (max (Suc m) n) (scan_rows a b2j blo bhi [Suc m..<n] (scan_row m blo bhi j2len (b2j (a ! m)) (Map.empty, bst)))"
    using Suc.hyps(1)[of "Suc m", OF _ _ step] Suc.hyps(2) Suc.prems(1) by simp
  moreover have "max (Suc m) n = max m n" using mn by simp
  ultimately show ?case using mn by (simp add: upt_conv_Cons st)
qed

lemma extend_left_bounds:
  "alo \<le> besti \<Longrightarrow> extend_left P a b alo blo (besti, bestj, bestsize) = (i, j, k)
   \<Longrightarrow> alo \<le> i \<and> i + k = besti + bestsize"
proof (induction besti arbitrary: bestj bestsize)
  case 0
  then show ?case by (simp add: extend_left.simps)
next
  case (Suc n)
  show ?case
  proof (cases "Suc n > alo \<and> bestj > blo \<and> P (b ! (bestj - 1)) \<and> a ! (Suc n - 1) = b ! (bestj - 1)")
    case True
    then have "extend_left P a b alo blo (n, bestj - 1, bestsize + 1) = (i, j, k)"
      using Suc.prems(2) by (subst (asm) extend_left.simps) simp
    then show ?thesis using Suc.IH[of "bestj - 1" "bestsize + 1"] True by simp
  next
    case False
    then have "(Suc n, bestj, bestsize) = (i, j, k)"
      using Suc.prems(2) by (subst (asm) extend_left.simps) auto
    then show ?thesis using Suc.prems(1) by simp
  qed
qed

lemma extend_right_bounds:
  "extend_right P a b ahi bhi (besti, bestj, bestsize) = (i, j, k)
   \<Longrightarrow> i = besti \<and> i + k \<le> max ahi (besti + bestsize)"
proof (induction "ahi - (besti + bestsize)" arbitrary: bestsize)
  case 0
  then have "(besti, bestj, bestsize) = (i, j, k)"
    by (subst (asm) extend_right.simps) simp
  then show ?case by simp
next
  case (Suc d)
  have lt: "besti + bestsize < ahi" using Suc.hyps(2) by simp
  show ?case
  proof (cases "bestj + bestsize < bhi \<and> P (b ! (bestj + bestsize))
         \<and> a ! (besti + bestsize) = b ! (bestj + bestsize)")
    case True
    then have "extend_right P a b ahi bhi (besti, bestj, bestsize + 1) = (i, j, k)"
      using Suc.prems lt by (subst (asm) extend_right.simps) simp
    moreover have "d = ahi - (besti + (bestsize + 1))" using Suc.hyps(2) by simp
    ultimately have "i = besti \<and> i + k \<le> max ahi (besti + (bestsize + 1))"
      by (rule Suc.hyps(1)[rotated])
    then show ?thesis using lt by auto
  next
    case False
    then have "(besti, bestj, bestsize) = (i, j, k)"
      using Suc.prems by (subst (asm) extend_right.simps) auto
    then show ?thesis by simp
  qed
qed

lemma find_longest_match_bounds:
  assumes "find_longest_match a b b2j alo ahi blo bhi = (i, j, k)"
  shows "alo \<le> i \<and> i + k \<le> max alo ahi"
proof -
  obtain j2len i0 j0 k0 where s0: "scan_rows a b2j blo bhi [alo..<ahi] (Map.empty, alo, blo, 0) = (j2len, i0, j0, k0)"
    by (metis prod_cases4)
  have "row_inv alo (max alo ahi) (scan_rows a b2j blo bhi [alo..<ahi] (Map.empty, alo, blo, 0))"
    by (rule scan_rows_inv) (simp_all add: row_inv_def)
  then have b0: "alo \<le> i0" "i0 + k0 \<le> max alo ahi" by (simp_all add: s0 row_inv_def)
  obtain i1 j1 k1 where s1: "extend_left (\<lambda>x. \<not> isbjunk x) a b alo blo (i0, j0, k0) = (i1, j1, k1)"
    by (metis prod_cases3)
  obtain i2 j2 k2 where s2: "extend_right (\<lambda>x. \<not> isbjunk x) a b ahi bhi (i1, j1, k1) = (i2, j2, k2)"
    by (metis prod_cases3)
  obtain i3 j3 k3 where s3: "extend_left isbjunk a b alo blo (i2, j2, k2) = (i3, j3, k3)"
    by (metis prod_cases3)
  obtain i4 j4 k4 where s4: "extend_right isbjunk a b ahi bhi (i3, j3, k3) = (i4, j4, k4)"
    by (metis prod_cases3)
  have b1: "alo \<le> i1" "i1 + k1 \<le> max alo ahi"
    using extend_left_bounds[OF b0(1) s1] b0(2) by simp_all
  have b2: "alo \<le> i2" "i2 + k2 \<le> max alo ahi"
    using extend_right_bounds[OF s2] b1 by auto
  have b3: "alo \<le> i3" "i3 + k3 \<le> max alo ahi"
    using extend_left_bounds[OF b2(1) s3] b2(2) by simp_all
  have b4: "alo \<le> i4" "i4 + k4 \<le> max alo ahi"
    using extend_right_bounds[OF s4] b3 by auto
  have "find_longest_match a b b2j alo ahi blo bhi = (i4, j4, k4)"
    by (simp add: find_longest_match_def s0 s1 s2 s3 s4)
  then show ?thesis using assms b4 by simp
qed

text \<open>
  The loop of \<^verbatim>\<open>get_matching_blocks\<close>:
  \<^verbatim>\<open>
  queue = [(0, la, 0, lb)]
  matching_blocks = []
  while queue:
      alo, ahi, blo, bhi = queue.pop()
      i, j, k = x = self.find_longest_match(alo, ahi, blo, bhi)
      if k:
          matching_blocks.append(x)
          if alo < i and blo < j:
              queue.append((alo, i, blo, j))
          if i+k < ahi and j+k < bhi:
              queue.append((i+k, ahi, j+k, bhi))
  \<close>
  \<^verbatim>\<open>queue.pop()\<close> takes the last element, so the queue is a stack; its top is the head
  of the list here.
\<close>

type_synonym region = "nat \<times> nat \<times> nat \<times> nat"

definition region_size :: "region \<Rightarrow> nat" where
  "region_size r = (case r of (alo, ahi, blo, bhi) \<Rightarrow> 2 * (ahi - alo) + 1)"

definition push_regions :: "region \<Rightarrow> best \<Rightarrow> region list \<Rightarrow> region list" where
  "push_regions r x queue =
     (case r of (alo, ahi, blo, bhi) \<Rightarrow> case x of (i, j, k) \<Rightarrow>
        (if i + k < ahi \<and> j + k < bhi then [(i + k, ahi, j + k, bhi)] else [])
        @ (if alo < i \<and> blo < j then [(alo, i, blo, j)] else [])
        @ queue)"

lemma push_regions_decreases:
  assumes "find_longest_match a b b2j alo ahi blo bhi = (i, j, k)" and "k \<noteq> 0"
  shows "sum_list (map region_size (push_regions (alo, ahi, blo, bhi) (i, j, k) queue))
         < sum_list (map region_size ((alo, ahi, blo, bhi) # queue))"
proof -
  have "alo \<le> i" "i + k \<le> max alo ahi"
    using find_longest_match_bounds[OF assms(1)] by simp_all
  then show ?thesis using assms(2)
    by (auto simp: push_regions_def region_size_def max_def split: if_splits)
qed

function matching_loop :: "'a list \<Rightarrow> 'a list \<Rightarrow> ('a \<Rightarrow> nat list) \<Rightarrow> region list \<Rightarrow> best list \<Rightarrow> best list" where
  "matching_loop a b b2j [] matching_blocks = matching_blocks"
| "matching_loop a b b2j ((alo, ahi, blo, bhi) # queue) matching_blocks =
     (let x = find_longest_match a b b2j alo ahi blo bhi
      in if snd (snd x) \<noteq> 0
         then matching_loop a b b2j (push_regions (alo, ahi, blo, bhi) x queue) (matching_blocks @ [x])
         else matching_loop a b b2j queue matching_blocks)"
  by pat_completeness auto
termination
proof (relation "measure (\<lambda>(a, b, b2j, queue, blocks). sum_list (map region_size queue))")
  show "wf (measure (\<lambda>(a, b, b2j, queue, blocks). sum_list (map region_size queue)))"
    by simp
next
  fix a b :: "'a list" and b2j alo ahi blo bhi queue and matching_blocks :: "best list" and x
  assume x: "x = find_longest_match a b b2j alo ahi blo bhi" and k: "snd (snd x) \<noteq> 0"
  obtain i j k where ijk: "x = (i, j, k)" by (metis prod_cases3)
  have "find_longest_match a b b2j alo ahi blo bhi = (i, j, k)"
    using x ijk by simp
  moreover have "k \<noteq> 0"
    using k unfolding ijk by simp
  ultimately have "sum_list (map region_size (push_regions (alo, ahi, blo, bhi) (i, j, k) queue))
         < sum_list (map region_size ((alo, ahi, blo, bhi) # queue))"
    by (rule push_regions_decreases)
  then show "((a, b, b2j, push_regions (alo, ahi, blo, bhi) x queue, matching_blocks @ [x]),
         (a, b, b2j, (alo, ahi, blo, bhi) # queue, matching_blocks))
        \<in> measure (\<lambda>(a, b, b2j, queue, blocks). sum_list (map region_size queue))"
    unfolding ijk by simp
next
  fix a b :: "'a list" and b2j alo ahi blo bhi queue and matching_blocks :: "best list" and x
  show "((a, b, b2j, queue, matching_blocks), (a, b, b2j, (alo, ahi, blo, bhi) # queue, matching_blocks))
        \<in> measure (\<lambda>(a, b, b2j, queue, blocks). sum_list (map region_size queue))"
    by (simp add: region_size_def)
qed

declare matching_loop.simps [simp del]

text \<open>
  The rest of \<^verbatim>\<open>get_matching_blocks\<close>: sort the blocks (tuples compare
  lexicographically), merge the adjacent ones, append the sentinel \<open>(la, lb, 0)\<close>.
  \<^verbatim>\<open>
  i1 = j1 = k1 = 0
  non_adjacent = []
  for i2, j2, k2 in matching_blocks:
      if i1 + k1 == i2 and j1 + k1 == j2:
          k1 += k2
      else:
          if k1:
              non_adjacent.append((i1, j1, k1))
          i1, j1, k1 = i2, j2, k2
  if k1:
      non_adjacent.append((i1, j1, k1))
  non_adjacent.append( (la, lb, 0) )
  \<close>
\<close>

fun collapse_adjacent :: "best \<Rightarrow> best list \<Rightarrow> best list" where
  "collapse_adjacent (i1, j1, k1) [] = (if k1 \<noteq> 0 then [(i1, j1, k1)] else [])"
| "collapse_adjacent (i1, j1, k1) ((i2, j2, k2) # ms) =
     (if i1 + k1 = i2 \<and> j1 + k1 = j2 then collapse_adjacent (i1, j1, k1 + k2) ms
      else (if k1 \<noteq> 0 then [(i1, j1, k1)] else []) @ collapse_adjacent (i2, j2, k2) ms)"

definition get_matching_blocks :: "'a list \<Rightarrow> 'a list \<Rightarrow> best list" where
  "get_matching_blocks a b =
     (let la = length a; lb = length b;
          matching_blocks = matching_loop a b (chain_b b) [(0, la, 0, lb)] [];
          matching_blocks = sort matching_blocks
      in collapse_adjacent (0, 0, 0) matching_blocks @ [(la, lb, 0)])"

text \<open>
  \<^verbatim>\<open>get_opcodes\<close>:
  \<^verbatim>\<open>
  i = j = 0
  for ai, bj, size in self.get_matching_blocks():
      tag = ''
      if i < ai and j < bj: tag = 'replace'
      elif i < ai:          tag = 'delete'
      elif j < bj:          tag = 'insert'
      if tag:
          answer.append( (tag, i, ai, j, bj) )
      i, j = ai+size, bj+size
      if size:
          answer.append( ('equal', ai, i, bj, j) )
  \<close>
\<close>

datatype tag = Replace | Delete | Insert | Equal

type_synonym opcode = "tag \<times> nat \<times> nat \<times> nat \<times> nat"

fun opcodes_from :: "nat \<Rightarrow> nat \<Rightarrow> best list \<Rightarrow> opcode list" where
  "opcodes_from i j [] = []"
| "opcodes_from i j ((ai, bj, sz) # blocks) =
     (if i < ai \<and> j < bj then [(Replace, i, ai, j, bj)]
      else if i < ai then [(Delete, i, ai, j, bj)]
      else if j < bj then [(Insert, i, ai, j, bj)]
      else [])
     @ (if sz \<noteq> 0 then [(Equal, ai, ai + sz, bj, bj + sz)] else [])
     @ opcodes_from (ai + sz) (bj + sz) blocks"

definition get_opcodes :: "'a list \<Rightarrow> 'a list \<Rightarrow> opcode list" where
  "get_opcodes a b = opcodes_from 0 0 (get_matching_blocks a b)"

text \<open>
  \<^verbatim>\<open>get_grouped_opcodes(n)\<close>:
  \<^verbatim>\<open>
  codes = self.get_opcodes()
  if not codes:
      codes = [("equal", 0, 1, 0, 1)]
  if codes[0][0] == 'equal':
      tag, i1, i2, j1, j2 = codes[0]
      codes[0] = tag, max(i1, i2-n), i2, max(j1, j2-n), j2
  if codes[-1][0] == 'equal':
      tag, i1, i2, j1, j2 = codes[-1]
      codes[-1] = tag, i1, min(i2, i1+n), j1, min(j2, j1+n)
  nn = n + n
  group = []
  for tag, i1, i2, j1, j2 in codes:
      if tag == 'equal' and i2-i1 > nn:
          group.append((tag, i1, min(i2, i1+n), j1, min(j2, j1+n)))
          yield group
          group = []
          i1, j1 = max(i1, i2-n), max(j1, j2-n)
      group.append((tag, i1, i2, j1 ,j2))
  if group and not (len(group)==1 and group[0][0] == 'equal'):
      yield group
  \<close>
  \<open>i1\<close> and \<open>j1\<close> are not negative, so \<open>max(i1, i2-n)\<close> is the same with the truncated
  subtraction of natural numbers, and so is the test \<open>i2-i1 > nn\<close>.
\<close>

definition trim_leading :: "nat \<Rightarrow> opcode \<Rightarrow> opcode" where
  "trim_leading n c =
     (case c of (tag, i1, i2, j1, j2) \<Rightarrow>
        if tag = Equal then (tag, max i1 (i2 - n), i2, max j1 (j2 - n), j2) else c)"

definition trim_trailing :: "nat \<Rightarrow> opcode \<Rightarrow> opcode" where
  "trim_trailing n c =
     (case c of (tag, i1, i2, j1, j2) \<Rightarrow>
        if tag = Equal then (tag, i1, min i2 (i1 + n), j1, min j2 (j1 + n)) else c)"

fun group_loop :: "nat \<Rightarrow> opcode list \<Rightarrow> opcode list \<Rightarrow> opcode list list" where
  "group_loop n [] grp =
     (if grp \<noteq> [] \<and> \<not> (length grp = 1 \<and> fst (hd grp) = Equal) then [grp] else [])"
| "group_loop n ((tag, i1, i2, j1, j2) # codes) grp =
     (if tag = Equal \<and> i2 - i1 > n + n
      then (grp @ [(tag, i1, min i2 (i1 + n), j1, min j2 (j1 + n))])
           # group_loop n codes [(tag, max i1 (i2 - n), i2, max j1 (j2 - n), j2)]
      else group_loop n codes (grp @ [(tag, i1, i2, j1, j2)]))"

definition get_grouped_opcodes :: "'a list \<Rightarrow> 'a list \<Rightarrow> nat \<Rightarrow> opcode list list" where
  "get_grouped_opcodes a b n =
     (let codes = get_opcodes a b;
          codes = (if codes = [] then [(Equal, 0, 1, 0, 1)] else codes);
          codes = trim_leading n (hd codes) # tl codes;
          codes = butlast codes @ [trim_trailing n (last codes)]
      in group_loop n codes [])"

subsection \<open>difflib.unified_diff\<close>

text \<open>\<^verbatim>\<open>'{}'.format(n)\<close> for an integer that is not negative: its decimal digits.\<close>

fun format_nat :: "nat \<Rightarrow> pystr" where
  "format_nat n = (if n < 10 then [48 + n] else format_nat (n div 10) @ [48 + n mod 10])"

declare format_nat.simps [simp del]

text \<open>
  \<^verbatim>\<open>
  def _format_range_unified(start, stop):
      beginning = start + 1
      length = stop - start
      if length == 1:
          return '{}'.format(beginning)
      if not length:
          beginning -= 1
      return '{},{}'.format(beginning, length)
  \<close>
  A group's ranges have \<open>start \<le> stop\<close>.
\<close>

definition format_range_unified :: "nat \<Rightarrow> nat \<Rightarrow> pystr" where
  "format_range_unified start stop =
     (let beginning = start + 1; len = stop - start
      in if len = 1 then format_nat beginning
         else format_nat (if len = 0 then beginning - 1 else beginning) @ py '','' @ format_nat len)"

text \<open>The slice \<^verbatim>\<open>xs[i1:i2]\<close> for indices that are not negative.\<close>

definition slice :: "'a list \<Rightarrow> nat \<Rightarrow> nat \<Rightarrow> 'a list" where
  "slice xs i1 i2 = take (i2 - i1) (drop i1 xs)"

text \<open>
  The body of one group:
  \<^verbatim>\<open>
  for tag, i1, i2, j1, j2 in group:
      if tag == 'equal':
          for line in a[i1:i2]: yield ' ' + line
          continue
      if tag in {'replace', 'delete'}:
          for line in a[i1:i2]: yield '-' + line
      if tag in {'replace', 'insert'}:
          for line in b[j1:j2]: yield '+' + line
  \<close>
\<close>

definition opcode_lines :: "pystr list \<Rightarrow> pystr list \<Rightarrow> opcode \<Rightarrow> pystr list" where
  "opcode_lines a b c =
     (case c of (tag, i1, i2, j1, j2) \<Rightarrow>
        if tag = Equal then map (\<lambda>line. py '' '' @ line) (slice a i1 i2)
        else (if tag = Replace \<or> tag = Delete then map (\<lambda>line. py ''-'' @ line) (slice a i1 i2) else [])
           @ (if tag = Replace \<or> tag = Insert then map (\<lambda>line. py ''+'' @ line) (slice b j1 j2) else []))"

text \<open>
  One group: the \<^verbatim>\<open>@@ -r1 +r2 @@\<close> line, \<^verbatim>\<open>lineterm\<close> being empty, then the body.
\<close>

definition group_lines :: "pystr list \<Rightarrow> pystr list \<Rightarrow> opcode list \<Rightarrow> pystr list" where
  "group_lines a b grp =
     (case hd grp of (tag1, first1, first2, first3, first4) \<Rightarrow>
      case last grp of (tag2, last1, last2, last3, last4) \<Rightarrow>
        (let file1_range = format_range_unified first1 last2;
             file2_range = format_range_unified first3 last4
         in (py ''@@ -'' @ file1_range @ py '' +'' @ file2_range @ py '' @@'')
            # concat (map (opcode_lines a b) grp)))"

text \<open>
  \<^verbatim>\<open>unified_diff(a, b, lineterm="")\<close> with the defaults \<^verbatim>\<open>fromfile=''\<close>, \<^verbatim>\<open>tofile=''\<close>,
  no dates and \<^verbatim>\<open>n=3\<close>: the two header lines before the first group, none when there is
  no group. The lines are \<^verbatim>\<open>str\<close>, so \<^verbatim>\<open>_check_types\<close> passes.
\<close>

definition unified_diff :: "pystr list \<Rightarrow> pystr list \<Rightarrow> pystr list" where
  "unified_diff a b =
     (let groups = get_grouped_opcodes a b 3
      in if groups = [] then []
         else [py ''--- '', py ''+++ ''] @ concat (map (group_lines a b) groups))"

subsection \<open>generate_diff\<close>

text \<open>
  \<^verbatim>\<open>
  def generate_diff(old, new):
      old_lines = old.splitlines() if old else []
      new_lines = new.splitlines()
      d = difflib.unified_diff(old_lines, new_lines, lineterm="")
      return "\n".join(d)
  \<close>
  \<open>old\<close> is None on a first run; None and the empty string are both false.
\<close>

definition generate_diff :: "pystr option \<Rightarrow> pystr \<Rightarrow> pystr" where
  "generate_diff old new =
     (let old_lines = (case old of None \<Rightarrow> [] | Some s \<Rightarrow> if s \<noteq> [] then splitlines s else []);
          new_lines = splitlines new;
          d = unified_diff old_lines new_lines
      in join [LF] d)"

section \<open>The run\<close>

text \<open>
  One call of \<^verbatim>\<open>main\<close> is a function from the world before the run to the outcome and the
  world after it. The libraries the script calls (requests, BeautifulSoup, Playwright,
  hashlib, smtplib, time) are parameters of the model: the theorems hold for whatever they
  return. The model covers the runs in which the file system itself does not fail: the
  snapshot file is absent or holds text, which \<^verbatim>\<open>read_text\<close> returns and \<^verbatim>\<open>write_text\<close>
  replaces. The strings of a run are decoded text (the response body, the snapshot file),
  so they hold no lone surrogate and \<^verbatim>\<open>s.encode("utf-8")\<close> does not raise. The text
  \<^verbatim>\<open>save_snapshot\<close> writes is normalized, hence has no CR, and is read back as written.
\<close>

subsection \<open>Configuration, collaborators and effects\<close>

text \<open>
  The constants of the CONFIG block that the functions read. \<^verbatim>\<open>URL\<close>, \<^verbatim>\<open>TO_EMAIL\<close> and
  \<^verbatim>\<open>FROM_EMAIL\<close> come from the process environment; \<^verbatim>\<open>CSS_SELECTOR\<close> is \<^verbatim>\<open>""\<close> and
  \<^verbatim>\<open>USE_JS\<close> is False in the source as it stands, and the functions are modelled for any
  value of them.
\<close>

record config =
  URL :: pystr
  CSS_SELECTOR :: pystr
  USE_JS :: bool
  TO_EMAIL :: pystr
  FROM_EMAIL :: pystr

text \<open>An uncaught exception ends the run; the model returns it as a value.\<close>

datatype error = RequestError | BrowserError | SelectorNotFound | SMTPError

text \<open>
  The \<^verbatim>\<open>EmailMessage\<close> that \<^verbatim>\<open>send_email\<close> builds: its three headers and the text given
  to \<^verbatim>\<open>set_content\<close>.
\<close>

record message =
  msg_From :: pystr
  msg_To :: pystr
  msg_Subject :: pystr
  msg_content :: pystr

text \<open>
  The libraries and services outside the repository, as they answer during one run:
  \<^item> \<open>http_get\<close>: \<^verbatim>\<open>requests.get\<close> and \<^verbatim>\<open>raise_for_status\<close>, the page's markup or an
    exception;
  \<^item> \<open>browser_content\<close>: the Playwright session, likewise;
  \<^item> \<open>soup_get_text\<close>: \<^verbatim>\<open>BeautifulSoup(html).get_text(separator="\n")\<close>;
  \<^item> \<open>soup_select_one\<close>: the text of the first element matching a selector, if any;
  \<^item> \<open>sha256_hexdigest\<close>: \<^verbatim>\<open>hashlib.sha256(s.encode("utf-8")).hexdigest()\<close>;
  \<^item> \<open>smtp_session\<close>: the SMTP session (connect, STARTTLS, login, send), which delivers
    the message (None) or raises;
  \<^item> \<open>ctime\<close>: \<^verbatim>\<open>time.ctime()\<close>.
\<close>

record env =
  http_get :: "error + pystr"
  browser_content :: "error + pystr"
  soup_get_text :: "pystr \<Rightarrow> pystr"
  soup_select_one :: "pystr \<Rightarrow> pystr \<Rightarrow> pystr option"
  sha256_hexdigest :: "pystr \<Rightarrow> pystr"
  smtp_session :: "message \<Rightarrow> error option"
  ctime :: pystr

text \<open>
  What a run changes: the snapshot file (None while it does not exist) and the trace of
  the effects performed, in order: a message delivered, a write of the snapshot file, a
  line printed.
\<close>

datatype effect = Sent message | Wrote pystr | Printed pystr

record world =
  snapshot_file :: "pystr option"
  effects :: "effect list"

subsection \<open>The functions of the script\<close>

text \<open>
  \<^verbatim>\<open>fetch_content\<close>: the markup by one of the two fetch modes, then the text of the
  selected element or of the whole page, normalized. A selector that matches nothing
  raises \<^verbatim>\<open>RuntimeError\<close>.
\<close>

definition fetch_content :: "config \<Rightarrow> env \<Rightarrow> error + pystr" where
  "fetch_content cfg e =
     (case (if USE_JS cfg then browser_content e else http_get e) of
        Inl err \<Rightarrow> Inl err
      | Inr html \<Rightarrow>
          if CSS_SELECTOR cfg \<noteq> [] then
            (case soup_select_one e (CSS_SELECTOR cfg) html of
               None \<Rightarrow> Inl SelectorNotFound
             | Some text \<Rightarrow> Inr (normalize_text text))
          else Inr (normalize_text (soup_get_text e html)))"

text \<open>\<^verbatim>\<open>make_hash(s)\<close>.\<close>

definition make_hash :: "env \<Rightarrow> pystr \<Rightarrow> pystr" where
  "make_hash e s = sha256_hexdigest e s"

text \<open>
  \<^verbatim>\<open>
  def get_last_snapshot():
      p = Path(SNAPSHOT_FILE)
      if not p.exists():
          return (None, None)
      content = p.read_text(encoding="utf-8")
      return (content, make_hash(content))
  \<close>
\<close>

definition get_last_snapshot :: "env \<Rightarrow> world \<Rightarrow> pystr option \<times> pystr option" where
  "get_last_snapshot e w =
     (case snapshot_file w of
        None \<Rightarrow> (None, None)
      | Some content \<Rightarrow> (Some content, Some (make_hash e content)))"

text \<open>
  \<^verbatim>\<open>save_snapshot(content, h)\<close> writes \<open>content\<close> to the snapshot file; \<open>h\<close> and the
  timestamp it computes are not used.
\<close>

definition save_snapshot :: "pystr \<Rightarrow> pystr \<Rightarrow> world \<Rightarrow> world" where
  "save_snapshot content h w =
     w\<lparr>snapshot_file := Some content, effects := effects w @ [Wrote content]\<rparr>"

text \<open>
  \<^verbatim>\<open>
  def send_email(subject, body, diff_text=None):
      msg = EmailMessage()
      msg["From"] = FROM_EMAIL
      msg["To"] = TO_EMAIL
      msg["Subject"] = subject
      body_full = body
      if diff_text:
          body_full += "\n\n--- DIFF ---\n" + diff_text
      msg.set_content(body_full)
      with smtplib.SMTP(SMTP_HOST, SMTP_PORT) as s:
          s.starttls(); s.login(SMTP_USER, SMTP_PASS); s.send_message(msg)
  \<close>
  \<open>diff_text\<close> is false when it is None and when it is the empty string.
\<close>

definition compose_message :: "config \<Rightarrow> pystr \<Rightarrow> pystr \<Rightarrow> pystr option \<Rightarrow> message" where
  "compose_message cfg subject body diff_text =
     (let body_full =
        (case diff_text of
           None \<Rightarrow> body
         | Some d \<Rightarrow> if d \<noteq> [] then body @ py ''\<newline>\<newline>--- DIFF ---\<newline>'' @ d else body)
      in \<lparr>msg_From = FROM_EMAIL cfg, msg_To = TO_EMAIL cfg, msg_Subject = subject,
          msg_content = body_full\<rparr>)"

definition send_email :: "config \<Rightarrow> env \<Rightarrow> pystr \<Rightarrow> pystr \<Rightarrow> pystr option \<Rightarrow> world
    \<Rightarrow> (error + unit) \<times> world" where
  "send_email cfg e subject body diff_text w =
     (let msg = compose_message cfg subject body diff_text
      in case smtp_session e msg of
           Some err \<Rightarrow> (Inl err, w)
         | None \<Rightarrow> (Inr (), w\<lparr>effects := effects w @ [Sent msg]\<rparr>))"

text \<open>\<^verbatim>\<open>print(line)\<close>.\<close>

definition print_line :: "pystr \<Rightarrow> world \<Rightarrow> world" where
  "print_line line w = w\<lparr>effects := effects w @ [Printed line]\<rparr>"

text \<open>
  The two f-strings of \<^verbatim>\<open>main\<close>:
  \<^verbatim>\<open>
  subject = f"[PageWatcher] Change detected: {URL}"
  body = (f"Change detected at {time.ctime()} for {URL}\n"
          f"Selector: {CSS_SELECTOR or '(whole page)'}\n"
          f"Hash: {h}\n")
  \<close>
\<close>

definition change_subject :: "config \<Rightarrow> pystr" where
  "change_subject cfg = py ''[PageWatcher] Change detected: '' @ URL cfg"

definition change_body :: "config \<Rightarrow> env \<Rightarrow> pystr \<Rightarrow> pystr" where
  "change_body cfg e h =
     py ''Change detected at '' @ ctime e @ py '' for '' @ URL cfg @ py ''\<newline>''
     @ py ''Selector: '' @ (if CSS_SELECTOR cfg \<noteq> [] then CSS_SELECTOR cfg else py ''(whole page)'')
     @ py ''\<newline>''
     @ py ''Hash: '' @ h @ py ''\<newline>''"

text \<open>
  The branch of \<^verbatim>\<open>main\<close> taken when the digests differ:
  \<^verbatim>\<open>
  diff = generate_diff(old_content, content)
  subject = ...
  body = ...
  send_email(subject, body, diff_text=diff)
  save_snapshot(content, h)
  print("Change detected -> email sent")
  \<close>
  An exception of \<^verbatim>\<open>send_email\<close> is not caught, so the two calls after it do not run.
\<close>

definition change_detected :: "config \<Rightarrow> env \<Rightarrow> pystr \<Rightarrow> pystr \<Rightarrow> pystr option \<Rightarrow> world
    \<Rightarrow> (error + unit) \<times> world" where
  "change_detected cfg e content h old_content w =
     (let diff = generate_diff old_content content;
          subject = change_subject cfg;
          body = change_body cfg e h
      in case send_email cfg e subject body (Some diff) w of
           (Inl err, w') \<Rightarrow> (Inl err, w')
         | (Inr u, w') \<Rightarrow>
             (Inr (), print_line (py ''Change detected -> email sent'') (save_snapshot content h w')))"

text \<open>The other branch: \<^verbatim>\<open>print("No change")\<close>.\<close>

definition no_change :: "world \<Rightarrow> (error + unit) \<times> world" where
  "no_change w = (Inr (), print_line (py ''No change'') w)"

text \<open>
  \<^verbatim>\<open>
  def main():
      content = fetch_content()
      h = make_hash(content)
      old_content, old_hash = get_last_snapshot()
      if old_hash != h:
          ...
      else:
          print("No change")
  \<close>
  \<open>old_hash\<close> is None or a string; None differs from every string.
\<close>

definition main :: "config \<Rightarrow> env \<Rightarrow> world \<Rightarrow> (error + unit) \<times> world" where
  "main cfg e w =
     (case fetch_content cfg e of
        Inl err \<Rightarrow> (Inl err, w)
      | Inr content \<Rightarrow>
          (let h = make_hash e content;
               (old_content, old_hash) = get_last_snapshot e w
           in if old_hash \<noteq> Some h
              then change_detected cfg e content h old_content w
              else no_change w))"

subsection \<open>A concrete run\<close>

text \<open>
  A configuration as the source has it (whole page, plain HTTP), collaborators that return
  a given page text and either deliver or refuse the mail, and a world holding a given
  snapshot. The digest is a parameter: \<open>id\<close> is a digest without collisions, \<open>take 1\<close>
  one with collisions.
\<close>

definition example_config :: config where
  "example_config =
     \<lparr>URL = py ''http://example.org/'', CSS_SELECTOR = [], USE_JS = False,
      TO_EMAIL = py ''to@example.org'', FROM_EMAIL = py ''from@example.org''\<rparr>"

definition example_env :: "pystr \<Rightarrow> bool \<Rightarrow> (pystr \<Rightarrow> pystr) \<Rightarrow> env" where
  "example_env page mail_up digest =
     \<lparr>http_get = Inr page, browser_content = Inl BrowserError,
      soup_get_text = id, soup_select_one = (\<lambda>selector html. None),
      sha256_hexdigest = digest,
      smtp_session = (\<lambda>msg. if mail_up then None else Some SMTPError),
      ctime = py ''Thu Jan  1 00:00:00 1970''\<rparr>"

definition example_world :: "pystr option \<Rightarrow> world" where
  "example_world snapshot = \<lparr>snapshot_file = snapshot, effects = []\<rparr>"

section \<open>Properties of the normalizer\<close>

subsection \<open>Lines produced by splitlines\<close>

lemma splitlines_from_breakfree:
  "\<forall>c\<in>set cur. \<not> is_linebreak c \<Longrightarrow> l \<in> set (splitlines_from cur s) \<Longrightarrow> c \<in> set l \<Longrightarrow> \<not> is_linebreak c"
proof (induction cur s rule: splitlines_from.induct)
  case (1 cur)
  then show ?case by (cases "cur = []") auto
next
  case (2 cur d cs)
  show ?case
  proof (cases "d = CR \<and> cs \<noteq> [] \<and> hd cs = LF")
    case True
    then have "l = cur \<or> l \<in> set (splitlines_from [] (tl cs))"
      using 2(5) by auto
    then show ?thesis
    proof
      assume "l = cur" then show ?thesis using 2(4,6) by blast
    next
      assume "l \<in> set (splitlines_from [] (tl cs))"
      then show ?thesis using 2(1)[OF True _ _ 2(6)] by simp
    qed
  next
    case False
    note nocrlf = this
    show ?thesis
    proof (cases "is_linebreak d")
      case True
      then have "l = cur \<or> l \<in> set (splitlines_from [] cs)"
        using 2(5) nocrlf by auto
      then show ?thesis
      proof
        assume "l = cur" then show ?thesis using 2(4,6) by blast
      next
        assume "l \<in> set (splitlines_from [] cs)"
        then show ?thesis using 2(2)[OF nocrlf True _ _ 2(6)] by simp
      qed
    next
      case False
      then have "l \<in> set (splitlines_from (cur @ [d]) cs)"
        using 2(5) nocrlf by auto
      moreover have "\<forall>c\<in>set (cur @ [d]). \<not> is_linebreak c"
        using 2(4) False by simp
      ultimately show ?thesis using 2(3)[OF nocrlf False _ _ 2(6)] by blast
    qed
  qed
qed

lemma splitlines_from_append:
  "\<forall>c\<in>set l. \<not> is_linebreak c \<Longrightarrow> splitlines_from cur (l @ r) = splitlines_from (cur @ l) r"
proof (induction l arbitrary: cur)
  case Nil then show ?case by simp
next
  case (Cons a l)
  have "a \<noteq> CR" using Cons.prems by (auto simp: is_linebreak_def CR_def)
  then show ?case using Cons by simp
qed

lemma LF_linebreak: "is_linebreak LF" "LF \<noteq> CR"
  by (simp_all add: is_linebreak_def LF_def CR_def)

lemma splitlines_join:
  "\<forall>l\<in>set ls. l \<noteq> [] \<and> (\<forall>c\<in>set l. \<not> is_linebreak c) \<Longrightarrow> splitlines_from [] (join [LF] ls) = ls"
proof (induction ls)
  case Nil then show ?case by simp
next
  case (Cons x xs)
  show ?case
  proof (cases xs)
    case Nil
    then show ?thesis using Cons.prems splitlines_from_append[of x "[]" "[]"] by simp
  next
    case (Cons y ys)
    then show ?thesis using Cons.prems Cons.IH splitlines_from_append[of x "[]" "LF # join [LF] (y # ys)"]
      by (simp add: LF_linebreak)
  qed
qed

lemma strip_subset: "set (strip s) \<subseteq> set s"
  unfolding strip_def by (auto dest!: set_dropWhileD)

lemma dropWhile_unchanged: "xs = [] \<or> \<not> P (hd xs) \<Longrightarrow> dropWhile P xs = xs"
  by (cases xs) auto

lemma strip_idem: "strip (strip s) = strip s"
proof -
  let ?t = "dropWhile isspace s"
  let ?u = "dropWhile isspace (rev ?t)"
  have left: "dropWhile isspace (rev ?u) = rev ?u"
  proof (cases "?u = []")
    case True then show ?thesis by (metis dropWhile.simps(1) rev.simps(1))
  next
    case False
    then have "?t \<noteq> []" by (metis dropWhile.simps(1) rev.simps(1))
    then have "\<not> isspace (hd ?t)" by (rule hd_dropWhile)
    moreover have "hd (rev ?u) = hd ?t"
    proof -
      have "rev ?t = takeWhile isspace (rev ?t) @ ?u" by simp
      then have "last (rev ?t) = last ?u" using False by (metis last_appendR)
      then show ?thesis using False \<open>?t \<noteq> []\<close> by (simp add: hd_rev last_rev)
    qed
    ultimately show ?thesis by (intro dropWhile_unchanged) simp
  qed
  show ?thesis
    unfolding strip_def left by (simp add: dropWhile_idem)
qed


lemma normalized_lines:
  assumes "l \<in> set (filter (\<lambda>ln. ln \<noteq> []) (map strip (splitlines t)))"
  shows "l \<noteq> [] \<and> (\<forall>c\<in>set l. \<not> is_linebreak c) \<and> strip l = l"
proof -
  from assms obtain x where x: "x \<in> set (splitlines t)" "l = strip x" and ne: "l \<noteq> []"
    by auto
  have "\<forall>c\<in>set x. \<not> is_linebreak c"
    using splitlines_from_breakfree[of "[]" _ t] x(1) by (simp add: splitlines_def)
  then have "\<forall>c\<in>set l. \<not> is_linebreak c" using strip_subset[of x] x(2) by blast
  moreover have "strip l = l" unfolding x(2) by (rule strip_idem)
  ultimately show ?thesis using ne by blast
qed

lemma normalize_text_lines:
  assumes "\<forall>l\<in>set L. l \<noteq> [] \<and> (\<forall>c\<in>set l. \<not> is_linebreak c) \<and> strip l = l"
  shows "normalize_text (join [LF] L) = join [LF] L"
proof -
  have "splitlines (join [LF] L) = L"
    unfolding splitlines_def by (rule splitlines_join) (use assms in blast)
  moreover have "map strip L = L" by (rule map_idI) (use assms in blast)
  moreover have "filter (\<lambda>ln. ln \<noteq> []) L = L" unfolding filter_id_conv using assms by blast
  ultimately show ?thesis
    unfolding normalize_text_def Let_def by (simp only:)
qed

lemma normalize_text_kept_lines:
  "normalize_text (join [LF] (filter (\<lambda>ln. ln \<noteq> []) (map strip (splitlines t))))
   = join [LF] (filter (\<lambda>ln. ln \<noteq> []) (map strip (splitlines t)))"
  by (rule normalize_text_lines) (use normalized_lines in blast)

text \<open>
  C6. Normalization is idempotent: normalizing the result of a normalization returns it
  unchanged, for every input text.
\<close>

theorem normalize_text_idempotent:
  "normalize_text (normalize_text t) = normalize_text t"
  using normalize_text_kept_lines[of t]
  unfolding normalize_text_def[of t] Let_def .

text \<open>
  The idempotence at a text with surrounding blanks and an empty line.
\<close>

theorem normalize_text_idempotent_witness:
  "normalize_text (normalize_text (py '' a \<newline>\<newline> b'')) = normalize_text (py '' a \<newline>\<newline> b'')"
  by (rule normalize_text_idempotent)

subsection \<open>The normalizer against its reference definition\<close>

lemma trim_strip: "trim s = strip s"
proof -
  let ?rest = "dropWhile isspace s"
  have "take (length ?rest - length (takeWhile isspace (rev ?rest))) ?rest
        = rev (drop (length (takeWhile isspace (rev ?rest))) (rev ?rest))"
    by (simp add: rev_drop)
  also have "\<dots> = rev (dropWhile isspace (rev ?rest))"
    by (simp add: dropWhile_eq_drop[symmetric])
  finally show ?thesis
    unfolding trim_def strip_def Let_def dropWhile_eq_drop[symmetric] .
qed

lemma trim_eq: "trim = strip"
  by (rule ext) (rule trim_strip)

lemma split_at_boundaries_nonempty: "split_at_boundaries s \<noteq> []"
  by (induction s) (auto split: list.splits)

lemma strip_Nil: "strip [] = []"
  by (simp add: strip_def)

lemma rejoin_join: "rejoin ls = join [LF] ls"
proof (induction ls)
  case Nil then show ?case by simp
next
  case (Cons l ls) then show ?case by (cases ls) auto
qed

text \<open>
  Python's lines and the reference's lines differ only in empty lines: the one a CR LF pair
  encloses and the one after a final boundary.
\<close>

lemma splitlines_from_boundaries:
  "filter (\<lambda>l. l \<noteq> []) (map strip (splitlines_from cur s))
   = filter (\<lambda>l. l \<noteq> []) (map strip ((cur @ hd (split_at_boundaries s)) # tl (split_at_boundaries s)))"
proof (induction cur s rule: splitlines_from.induct)
  case (1 cur)
  then show ?case by (simp add: strip_Nil)
next
  case (2 cur c cs)
  show ?case
  proof (cases "c = CR \<and> cs \<noteq> [] \<and> hd cs = LF")
    case True
    then obtain cs' where cs: "cs = LF # cs'" by (cases cs) auto
    have c: "is_linebreak c" "is_linebreak LF"
      using True by (simp_all add: is_linebreak_def CR_def LF_def)
    have IH: "filter (\<lambda>l. l \<noteq> []) (map strip (splitlines_from [] cs'))
      = filter (\<lambda>l. l \<noteq> []) (map strip (split_at_boundaries cs'))"
      using 2(1)[OF True] cs split_at_boundaries_nonempty[of cs'] by simp
    have "splitlines_from cur (c # cs) = cur # splitlines_from [] cs'"
      using True cs by simp
    moreover have "split_at_boundaries (c # cs) = [] # [] # split_at_boundaries cs'"
      using c cs by simp
    ultimately show ?thesis using IH by (simp add: strip_Nil)
  next
    case False
    note nocrlf = this
    show ?thesis
    proof (cases "is_linebreak c")
      case True
      have IH: "filter (\<lambda>l. l \<noteq> []) (map strip (splitlines_from [] cs))
        = filter (\<lambda>l. l \<noteq> []) (map strip (split_at_boundaries cs))"
        using 2(2)[OF nocrlf True] split_at_boundaries_nonempty[of cs] by simp
      have "splitlines_from cur (c # cs) = cur # splitlines_from [] cs"
        using True nocrlf by auto
      moreover have "split_at_boundaries (c # cs) = [] # split_at_boundaries cs"
        using True by simp
      ultimately show ?thesis using IH by (simp add: strip_Nil)
    next
      case False
      obtain l ls where sp: "split_at_boundaries cs = l # ls"
        using split_at_boundaries_nonempty[of cs] by (cases "split_at_boundaries cs") auto
      have "splitlines_from cur (c # cs) = splitlines_from (cur @ [c]) cs"
        using False nocrlf by auto
      moreover have "split_at_boundaries (c # cs) = (c # l) # ls"
        using False sp by simp
      ultimately show ?thesis using 2(3)[OF nocrlf False] sp by simp
    qed
  qed
qed

text \<open>
  C7. normalize_text equals the reference definition on every input text: split into
  lines, strip leading and trailing whitespace from each line, discard the lines that
  become empty, rejoin the rest with a single newline.
\<close>

theorem normalize_text_refines_reference:
  "normalize_text t = normalize_text_reference t"
  using splitlines_from_boundaries[of "[]" t] split_at_boundaries_nonempty[of t]
  by (simp add: normalize_text_def normalize_text_reference_def splitlines_def rejoin_join
        trim_eq Let_def)

text \<open>
  The refinement at a text with a CR LF pair and a final line boundary, where the lines of
  the two definitions differ before the empty ones are discarded.
\<close>

theorem normalize_text_refines_reference_witness:
  "normalize_text (py '' a'' @ [CR, LF] @ py ''b '' @ [LF])
     = normalize_text_reference (py '' a'' @ [CR, LF] @ py ''b '' @ [LF])"
  by (rule normalize_text_refines_reference)

section \<open>Properties of the diff generator\<close>

text \<open>
  C8. For the old content \<^verbatim>\<open>"a\nb\nc"\<close> and the new content \<^verbatim>\<open>"a\nx\nc"\<close> the matcher finds line 1
  and line 3 equal and line 2 replaced, and \<open>generate_diff\<close> returns the unified diff with
  one hunk covering lines 1 to 3 of both sides: context line \<open>a\<close>, one deletion \<open>-b\<close>, one
  addition \<open>+x\<close>, context line \<open>c\<close>.
\<close>

theorem generate_diff_marks_changed_line:
  "generate_diff (Some (py ''a\<newline>b\<newline>c'')) (py ''a\<newline>x\<newline>c'')
     = py ''--- \<newline>+++ \<newline>@@ -1,3 +1,3 @@\<newline> a\<newline>-b\<newline>+x\<newline> c''
   \<and> get_opcodes [py ''a'', py ''b'', py ''c''] [py ''a'', py ''x'', py ''c'']
     = [(Equal, 0, 1, 0, 1), (Replace, 1, 2, 1, 2), (Equal, 2, 3, 2, 3)]"
  by code_simp

subsection \<open>The diff against an empty old side\<close>

lemma find_longest_match_empty_a:
  "find_longest_match [] b b2j 0 0 0 bhi = (0, 0, 0)"
  by (simp add: find_longest_match_def extend_left.simps extend_right.simps)

lemma get_matching_blocks_empty_a:
  "get_matching_blocks [] b = [(0, length b, 0)]"
  by (simp add: get_matching_blocks_def matching_loop.simps find_longest_match_empty_a)

lemma get_opcodes_empty_a:
  "get_opcodes [] b = (if b = [] then [] else [(Insert, 0, 0, 0, length b)])"
  by (simp add: get_opcodes_def get_matching_blocks_empty_a)

lemma get_grouped_opcodes_empty_a:
  "get_grouped_opcodes [] b 3 = (if b = [] then [] else [[(Insert, 0, 0, 0, length b)]])"
  by (simp add: get_grouped_opcodes_def get_opcodes_empty_a trim_leading_def trim_trailing_def)

lemma unified_diff_empty_a:
  "unified_diff [] b =
     (if b = [] then []
      else [py ''--- '', py ''+++ '',
            py ''@@ -0,0 +'' @ format_range_unified 0 (length b) @ py '' @@'']
           @ map (\<lambda>line. py ''+'' @ line) b)"
  by (simp add: unified_diff_def get_grouped_opcodes_empty_a group_lines_def opcode_lines_def
      slice_def format_range_unified_def format_nat.simps py_def)

lemma generate_diff_no_old:
  "generate_diff None new =
     join [LF]
       (if splitlines new = [] then []
        else [py ''--- '', py ''+++ '',
              py ''@@ -0,0 +'' @ format_range_unified 0 (length (splitlines new)) @ py '' @@'']
             @ map (\<lambda>line. py ''+'' @ line) (splitlines new))"
  by (simp add: generate_diff_def unified_diff_empty_a)

text \<open>
  C10. An empty-string old content is treated as an absent one: the old side is the empty
  line sequence, \<open>generate_diff("", new) = generate_diff(None, new)\<close>, and the diff is
  the header, one range line and every line of \<open>new\<close> as an addition (no line at all when
  \<open>new\<close> has no line).
\<close>

theorem generate_diff_empty_old_as_absent:
  "generate_diff (Some []) new = generate_diff None new
   \<and> generate_diff (Some []) new =
       join [LF]
         (if splitlines new = [] then []
          else [py ''--- '', py ''+++ '',
                py ''@@ -0,0 +'' @ format_range_unified 0 (length (splitlines new)) @ py '' @@'']
               @ map (\<lambda>line. py ''+'' @ line) (splitlines new))"
proof -
  have "generate_diff (Some []) new = generate_diff None new"
    by (simp add: generate_diff_def)
  then show ?thesis by (simp only: generate_diff_no_old simp_thms)
qed

text \<open>
  The same at a new content of two lines.
\<close>

theorem generate_diff_empty_old_as_absent_witness:
  "generate_diff (Some []) (py ''a\<newline>b'') = generate_diff None (py ''a\<newline>b'')
   \<and> generate_diff (Some []) (py ''a\<newline>b'') = py ''--- \<newline>+++ \<newline>@@ -0,0 +1,2 @@\<newline>+a\<newline>+b''"
proof -
  have lines: "splitlines (py ''a\<newline>b'') = [py ''a'', py ''b'']"
    by (simp add: splitlines_def py_def is_linebreak_def CR_def)
  have "join [LF]
         (if splitlines (py ''a\<newline>b'') = [] then []
          else [py ''--- '', py ''+++ '',
                py ''@@ -0,0 +'' @ format_range_unified 0 (length (splitlines (py ''a\<newline>b''))) @ py '' @@'']
               @ map (\<lambda>line. py ''+'' @ line) (splitlines (py ''a\<newline>b'')))
        = py ''--- \<newline>+++ \<newline>@@ -0,0 +1,2 @@\<newline>+a\<newline>+b''"
    unfolding lines by (simp add: format_range_unified_def format_nat.simps py_def LF_def)
  then show ?thesis
    using generate_diff_empty_old_as_absent[of "py ''a\<newline>b''"] by (metis (no_types, lifting))
qed

section \<open>Properties of the run\<close>

lemma change_detected_outcome:
  "change_detected cfg e content h old_content w =
     (let msg = compose_message cfg (change_subject cfg) (change_body cfg e h)
                  (Some (generate_diff old_content content))
      in case smtp_session e msg of
           Some err \<Rightarrow> (Inl err, w)
         | None \<Rightarrow>
             (Inr (), w\<lparr>snapshot_file := Some content,
                         effects := effects w @ [Sent msg, Wrote content,
                                                 Printed (py ''Change detected -> email sent'')]\<rparr>))"
  by (simp add: change_detected_def send_email_def save_snapshot_def print_line_def Let_def
      split: option.splits)

lemma change_detected_not_no_change:
  "change_detected cfg e content h old_content w \<noteq> no_change w"
proof -
  have "effects w @ [Sent m, Wrote content, Printed l] \<noteq> effects w @ [Printed l']" for m l l'
    by simp
  then show ?thesis
    unfolding change_detected_outcome no_change_def print_line_def Let_def
    by (auto split: option.splits dest!: arg_cong[where f = effects])
qed

lemma main_with_snapshot:
  assumes "fetch_content cfg e = Inr content" and "snapshot_file w = Some stored"
  shows "main cfg e w =
     (if make_hash e stored = make_hash e content then no_change w
      else change_detected cfg e content (make_hash e content) (Some stored) w)"
  using assms by (simp add: main_def get_last_snapshot_def Let_def)

lemma main_without_snapshot:
  assumes "fetch_content cfg e = Inr content" and "snapshot_file w = None"
  shows "main cfg e w = change_detected cfg e content (make_hash e content) None w"
  using assms by (simp add: main_def get_last_snapshot_def Let_def)

lemma fetch_content_normalized:
  assumes "fetch_content cfg e = Inr content"
  shows "normalize_text content = content"
proof -
  from assms obtain t where "content = normalize_text t"
    by (auto simp: fetch_content_def split: sum.splits if_splits option.splits)
  then have content: "content = join [LF] (filter (\<lambda>ln. ln \<noteq> []) (map strip (splitlines t)))"
    by (simp add: normalize_text_def)
  show ?thesis
    unfolding content by (rule normalize_text_kept_lines)
qed

lemma send_email_failure_keeps_world:
  "send_email cfg e subject body diff_text w = (Inl err, w') \<Longrightarrow>
     w' = w \<and> smtp_session e (compose_message cfg subject body diff_text) = Some err"
  by (auto simp: send_email_def Let_def split: option.splits)

lemma example_fetch_new:
  "fetch_content example_config (example_env (py '' new \<newline>'') up digest) = Inr (py ''new'')"
  by (simp add: fetch_content_def example_config_def example_env_def normalize_text_def
      splitlines_def strip_def isspace_def is_linebreak_def py_def LF_def CR_def)

lemma example_fetch_page:
  "fetch_content example_config (example_env (py ''a\<newline>'') up digest) = Inr (py ''a'')"
  by (simp add: fetch_content_def example_config_def example_env_def normalize_text_def
      splitlines_def strip_def isspace_def is_linebreak_def py_def LF_def CR_def)

text \<open>
  C1. When a snapshot is stored, main reports "No change" if and only if the digest of the
  current normalized content equals the digest recomputed from the stored content; when the
  digests differ it takes the "change detected" branch, and so it does for any two distinct
  contents when the digest has no collision. The digest is any function of the content.
\<close>

theorem main_unchanged_iff_digests_equal:
  assumes "fetch_content cfg e = Inr content" and "snapshot_file w = Some stored"
  shows "(main cfg e w = no_change w \<longleftrightarrow> make_hash e stored = make_hash e content)
    \<and> (make_hash e stored \<noteq> make_hash e content \<longrightarrow>
         main cfg e w = change_detected cfg e content (make_hash e content) (Some stored) w)
    \<and> (inj (sha256_hexdigest e) \<and> stored \<noteq> content \<longrightarrow>
         main cfg e w = change_detected cfg e content (make_hash e content) (Some stored) w)"
proof -
  note m = main_with_snapshot[OF assms]
  have iff: "main cfg e w = no_change w \<longleftrightarrow> make_hash e stored = make_hash e content"
    using m change_detected_not_no_change[of cfg e content "make_hash e content" "Some stored" w]
    by (cases "make_hash e stored = make_hash e content") simp_all
  have differ: "make_hash e stored \<noteq> make_hash e content \<longrightarrow>
      main cfg e w = change_detected cfg e content (make_hash e content) (Some stored) w"
    using m by simp
  have "inj (sha256_hexdigest e) \<and> stored \<noteq> content \<longrightarrow> make_hash e stored \<noteq> make_hash e content"
    by (auto simp: make_hash_def dest: injD)
  with iff differ show ?thesis by blast
qed

text \<open>
  A digest with a collision reports two distinct contents unchanged; a digest without
  collisions reports them changed.
\<close>

theorem main_unchanged_iff_digests_equal_witness:
  "fetch_content example_config (example_env (py '' new \<newline>'') True (take 1)) = Inr (py ''new'')
   \<and> snapshot_file (example_world (Some (py ''now''))) = Some (py ''now'')
   \<and> make_hash (example_env (py '' new \<newline>'') True (take 1)) (py ''now'')
       = make_hash (example_env (py '' new \<newline>'') True (take 1)) (py ''new'')
   \<and> main example_config (example_env (py '' new \<newline>'') True (take 1)) (example_world (Some (py ''now'')))
       = no_change (example_world (Some (py ''now'')))
   \<and> fetch_content example_config (example_env (py '' new \<newline>'') True id) = Inr (py ''new'')
   \<and> inj (sha256_hexdigest (example_env (py '' new \<newline>'') True id))
   \<and> py ''now'' \<noteq> py ''new''
   \<and> main example_config (example_env (py '' new \<newline>'') True id) (example_world (Some (py ''now'')))
       = change_detected example_config (example_env (py '' new \<newline>'') True id) (py ''new'')
           (make_hash (example_env (py '' new \<newline>'') True id) (py ''new'')) (Some (py ''now''))
           (example_world (Some (py ''now'')))"
proof -
  have snap: "snapshot_file (example_world (Some (py ''now''))) = Some (py ''now'')"
    by (simp add: example_world_def)
  have eq: "make_hash (example_env (py '' new \<newline>'') True (take 1)) (py ''now'')
       = make_hash (example_env (py '' new \<newline>'') True (take 1)) (py ''new'')"
    by (simp add: make_hash_def example_env_def py_def)
  have inj: "inj (sha256_hexdigest (example_env (py '' new \<newline>'') True id))"
    by (simp add: example_env_def)
  have ne: "py ''now'' \<noteq> py ''new''"
    by (simp add: py_def)
  show ?thesis
    using main_unchanged_iff_digests_equal[OF example_fetch_new snap, of True "take 1"]
      main_unchanged_iff_digests_equal[OF example_fetch_new snap, of True id]
      example_fetch_new snap eq inj ne
    by simp
qed

text \<open>
  C2. On a first run, when the snapshot file does not exist, get_last_snapshot returns
  (None, None), main takes the "change detected" branch whatever the content is, and the
  diff, computed against no old line, is the header, one range line and every line of the
  current content as an addition.
\<close>

theorem first_run_reports_change:
  assumes "snapshot_file w = None"
  shows "get_last_snapshot e w = (None, None)
    \<and> (fetch_content cfg e = Inr content \<longrightarrow>
         main cfg e w = change_detected cfg e content (make_hash e content) None w
         \<and> main cfg e w \<noteq> no_change w)
    \<and> generate_diff None content =
        join [LF]
          (if splitlines content = [] then []
           else [py ''--- '', py ''+++ '',
                 py ''@@ -0,0 +'' @ format_range_unified 0 (length (splitlines content)) @ py '' @@'']
                @ map (\<lambda>line. py ''+'' @ line) (splitlines content))"
proof -
  have "get_last_snapshot e w = (None, None)"
    using assms by (simp add: get_last_snapshot_def)
  moreover have "fetch_content cfg e = Inr content \<longrightarrow>
         main cfg e w = change_detected cfg e content (make_hash e content) None w
         \<and> main cfg e w \<noteq> no_change w"
    using main_without_snapshot[OF _ assms, of cfg e content]
      change_detected_not_no_change[of cfg e content "make_hash e content" None w]
    by simp
  ultimately show ?thesis using generate_diff_no_old[of content] by blast
qed

text \<open>
  A first run on a page of one line.
\<close>

theorem first_run_reports_change_witness:
  "snapshot_file (example_world None) = None
   \<and> get_last_snapshot (example_env (py ''a\<newline>'') True id) (example_world None) = (None, None)
   \<and> fetch_content example_config (example_env (py ''a\<newline>'') True id) = Inr (py ''a'')
   \<and> main example_config (example_env (py ''a\<newline>'') True id) (example_world None)
       = change_detected example_config (example_env (py ''a\<newline>'') True id) (py ''a'')
           (make_hash (example_env (py ''a\<newline>'') True id) (py ''a'')) None (example_world None)
   \<and> main example_config (example_env (py ''a\<newline>'') True id) (example_world None)
       \<noteq> no_change (example_world None)
   \<and> generate_diff None (py ''a'') = py ''--- \<newline>+++ \<newline>@@ -0,0 +1 @@\<newline>+a''"
proof -
  let ?e = "example_env (py ''a\<newline>'') True id"
  have snap: "snapshot_file (example_world None) = None"
    by (simp add: example_world_def)
  have fetch: "fetch_content example_config ?e = Inr (py ''a'')"
    by (rule example_fetch_page)
  have lines: "splitlines (py ''a'') = [py ''a'']"
    by (simp add: splitlines_def py_def is_linebreak_def CR_def)
  have shown: "join [LF]
          (if splitlines (py ''a'') = [] then []
           else [py ''--- '', py ''+++ '',
                 py ''@@ -0,0 +'' @ format_range_unified 0 (length (splitlines (py ''a''))) @ py '' @@'']
                @ map (\<lambda>line. py ''+'' @ line) (splitlines (py ''a'')))
        = py ''--- \<newline>+++ \<newline>@@ -0,0 +1 @@\<newline>+a''"
    unfolding lines by (simp add: format_range_unified_def format_nat.simps py_def LF_def)
  note first = first_run_reports_change[OF snap, of ?e example_config "py ''a''"]
  have a: "get_last_snapshot ?e (example_world None) = (None, None)"
    using first by blast
  have b: "main example_config ?e (example_world None)
       = change_detected example_config ?e (py ''a'') (make_hash ?e (py ''a'')) None (example_world None)
     \<and> main example_config ?e (example_world None) \<noteq> no_change (example_world None)"
    using first fetch by blast
  have c: "generate_diff None (py ''a'') = py ''--- \<newline>+++ \<newline>@@ -0,0 +1 @@\<newline>+a''"
    using first shown by (metis (no_types, lifting))
  show ?thesis using snap a fetch b c by blast
qed

text \<open>
  C3. When a change is detected and send_email raises, main ends with that exception and
  the world is as it was: save_snapshot has not run, the snapshot file is unchanged and
  nothing was written or printed.
\<close>

theorem failed_notification_skips_save:
  assumes "fetch_content cfg e = Inr content"
    and "get_last_snapshot e w = (old_content, old_hash)"
    and "old_hash \<noteq> Some (make_hash e content)"
    and "send_email cfg e (change_subject cfg) (change_body cfg e (make_hash e content))
           (Some (generate_diff old_content content)) w = (Inl err, w')"
  shows "main cfg e w = (Inl err, w)
    \<and> snapshot_file (snd (main cfg e w)) = snapshot_file w
    \<and> effects (snd (main cfg e w)) = effects w"
proof -
  have "w' = w" using send_email_failure_keeps_world[OF assms(4)] by simp
  then have "change_detected cfg e content (make_hash e content) old_content w = (Inl err, w)"
    using assms(4) by (simp add: change_detected_def Let_def)
  then have "main cfg e w = (Inl err, w)"
    using assms(1-3) by (simp add: main_def Let_def)
  then show ?thesis by simp
qed

text \<open>
  A run on a changed page while the mail server refuses the session.
\<close>

theorem failed_notification_skips_save_witness:
  "fetch_content example_config (example_env (py '' new \<newline>'') False id) = Inr (py ''new'')
   \<and> get_last_snapshot (example_env (py '' new \<newline>'') False id) (example_world (Some (py ''old'')))
       = (Some (py ''old''), Some (py ''old''))
   \<and> Some (py ''old'') \<noteq> Some (make_hash (example_env (py '' new \<newline>'') False id) (py ''new''))
   \<and> main example_config (example_env (py '' new \<newline>'') False id) (example_world (Some (py ''old'')))
       = (Inl SMTPError, example_world (Some (py ''old'')))
   \<and> snapshot_file (snd (main example_config (example_env (py '' new \<newline>'') False id)
        (example_world (Some (py ''old''))))) = Some (py ''old'')"
proof -
  let ?e = "example_env (py '' new \<newline>'') False id"
  let ?w = "example_world (Some (py ''old''))"
  have snap: "get_last_snapshot ?e ?w = (Some (py ''old''), Some (py ''old''))"
    by (simp add: get_last_snapshot_def example_world_def make_hash_def example_env_def)
  have ne: "Some (py ''old'') \<noteq> Some (make_hash ?e (py ''new''))"
    by (simp add: make_hash_def example_env_def py_def)
  have send: "send_email example_config ?e (change_subject example_config)
      (change_body example_config ?e (make_hash ?e (py ''new'')))
      (Some (generate_diff (Some (py ''old'')) (py ''new''))) ?w = (Inl SMTPError, ?w)"
    by (simp add: send_email_def example_env_def Let_def)
  show ?thesis
    using failed_notification_skips_save[OF example_fetch_new snap ne send] example_fetch_new snap ne
    by (simp add: example_world_def)
qed

text \<open>
  C4, as stated: the snapshot file is overwritten with the new content even when the
  notification fails. It is not: after the run on a changed page with the mail server down,
  the file does not hold the new content.
\<close>

theorem snapshot_survives_failed_notification:
  "snapshot_file (snd (main example_config (example_env (py '' new \<newline>'') False id)
        (example_world (Some (py ''old''))))) \<noteq> Some (py ''new'')"
proof -
  let ?e = "example_env (py '' new \<newline>'') False id"
  let ?w = "example_world (Some (py ''old''))"
  have "main example_config ?e ?w
      = change_detected example_config ?e (py ''new'') (make_hash ?e (py ''new'')) (Some (py ''old'')) ?w"
    using main_with_snapshot[OF example_fetch_new, of ?w "py ''old''" False id]
    by (simp add: example_world_def make_hash_def example_env_def py_def)
  also have "\<dots> = (Inl SMTPError, ?w)"
    unfolding change_detected_outcome Let_def by (simp add: example_env_def)
  finally show ?thesis
    by (simp add: example_world_def py_def)
qed

text \<open>
  C4, amended. When a change is detected, the snapshot file is overwritten with the new
  normalized content exactly when the notification is delivered, after the delivery; when
  the send fails, the run ends with the exception and the file is left as it was.
\<close>

theorem snapshot_saved_only_after_notification:
  assumes "fetch_content cfg e = Inr content"
    and "get_last_snapshot e w = (old_content, old_hash)"
    and "old_hash \<noteq> Some (make_hash e content)"
    and "msg = compose_message cfg (change_subject cfg) (change_body cfg e (make_hash e content))
                 (Some (generate_diff old_content content))"
  shows "(smtp_session e msg = None \<longrightarrow>
           main cfg e w =
             (Inr (), w\<lparr>snapshot_file := Some content,
                         effects := effects w @ [Sent msg, Wrote content,
                                                 Printed (py ''Change detected -> email sent'')]\<rparr>)
           \<and> snapshot_file (snd (main cfg e w)) = Some content
           \<and> normalize_text content = content)
    \<and> (\<forall>err. smtp_session e msg = Some err \<longrightarrow>
           main cfg e w = (Inl err, w) \<and> snapshot_file (snd (main cfg e w)) = snapshot_file w)"
proof -
  have m: "main cfg e w = change_detected cfg e content (make_hash e content) old_content w"
    using assms(1-3) by (simp add: main_def Let_def)
  show ?thesis
    unfolding m change_detected_outcome assms(4)[symmetric] Let_def
    using fetch_content_normalized[OF assms(1)] by simp
qed

text \<open>
  The two cases on the same changed page, with the mail server up and down.
\<close>

theorem snapshot_saved_only_after_notification_witness:
  "fetch_content example_config (example_env (py '' new \<newline>'') True id) = Inr (py ''new'')
   \<and> get_last_snapshot (example_env (py '' new \<newline>'') True id) (example_world (Some (py ''old'')))
       = (Some (py ''old''), Some (py ''old''))
   \<and> Some (py ''old'') \<noteq> Some (make_hash (example_env (py '' new \<newline>'') True id) (py ''new''))
   \<and> smtp_session (example_env (py '' new \<newline>'') True id)
        (compose_message example_config (change_subject example_config)
           (change_body example_config (example_env (py '' new \<newline>'') True id)
              (make_hash (example_env (py '' new \<newline>'') True id) (py ''new'')))
           (Some (generate_diff (Some (py ''old'')) (py ''new'')))) = None
   \<and> snapshot_file (snd (main example_config (example_env (py '' new \<newline>'') True id)
        (example_world (Some (py ''old''))))) = Some (py ''new'')
   \<and> fetch_content example_config (example_env (py '' new \<newline>'') False id) = Inr (py ''new'')
   \<and> get_last_snapshot (example_env (py '' new \<newline>'') False id) (example_world (Some (py ''old'')))
       = (Some (py ''old''), Some (py ''old''))
   \<and> smtp_session (example_env (py '' new \<newline>'') False id)
        (compose_message example_config (change_subject example_config)
           (change_body example_config (example_env (py '' new \<newline>'') False id)
              (make_hash (example_env (py '' new \<newline>'') False id) (py ''new'')))
           (Some (generate_diff (Some (py ''old'')) (py ''new'')))) = Some SMTPError
   \<and> snapshot_file (snd (main example_config (example_env (py '' new \<newline>'') False id)
        (example_world (Some (py ''old''))))) = snapshot_file (example_world (Some (py ''old'')))"
proof -
  let ?w = "example_world (Some (py ''old''))"
  have snap: "get_last_snapshot (example_env (py '' new \<newline>'') up id) ?w = (Some (py ''old''), Some (py ''old''))" for up
    by (simp add: get_last_snapshot_def example_world_def make_hash_def example_env_def)
  have ne: "Some (py ''old'') \<noteq> Some (make_hash (example_env (py '' new \<newline>'') up id) (py ''new''))" for up
    by (simp add: make_hash_def example_env_def py_def)
  have up: "smtp_session (example_env (py '' new \<newline>'') True id) m = None" for m
    by (simp add: example_env_def)
  have down: "smtp_session (example_env (py '' new \<newline>'') False id) m = Some SMTPError" for m
    by (simp add: example_env_def)
  show ?thesis
    using snapshot_saved_only_after_notification[OF example_fetch_new snap ne refl, of True]
      snapshot_saved_only_after_notification[OF example_fetch_new snap ne refl, of False]
      example_fetch_new snap ne up down
    by simp
qed

text \<open>
  C5. When the stored and the current digests match, main prints "No change" and does
  nothing else: no message is sent, the snapshot file is not written and keeps its content.
  A run that follows a completed run on the same page content is such a run.
\<close>

theorem unchanged_run_is_noop:
  assumes "fetch_content cfg e = Inr content"
  shows "(\<forall>stored. snapshot_file w = Some stored \<and> make_hash e stored = make_hash e content \<longrightarrow>
            main cfg e w = (Inr (), w\<lparr>effects := effects w @ [Printed (py ''No change'')]\<rparr>)
            \<and> snapshot_file (snd (main cfg e w)) = snapshot_file w)
    \<and> (\<forall>w1. main cfg e w = (Inr (), w1) \<longrightarrow>
            main cfg e w1 = (Inr (), w1\<lparr>effects := effects w1 @ [Printed (py ''No change'')]\<rparr>)
            \<and> snapshot_file (snd (main cfg e w1)) = snapshot_file w1)"
proof -
  have noop: "main cfg e v = (Inr (), v\<lparr>effects := effects v @ [Printed (py ''No change'')]\<rparr>)
      \<and> snapshot_file (snd (main cfg e v)) = snapshot_file v"
    if "snapshot_file v = Some stored" "make_hash e stored = make_hash e content" for v stored
    using main_with_snapshot[OF assms that(1)] that(2)
    by (simp add: no_change_def print_line_def)
  have second: "\<exists>stored. snapshot_file w1 = Some stored \<and> make_hash e stored = make_hash e content"
    if run: "main cfg e w = (Inr (), w1)" for w1
  proof (cases "snapshot_file w")
    case None
    have "change_detected cfg e content (make_hash e content) None w = (Inr (), w1)"
      using main_without_snapshot[OF assms None] run by simp
    then have "snapshot_file w1 = Some content"
      unfolding change_detected_outcome Let_def by (auto split: option.splits)
    then show ?thesis by simp
  next
    case (Some stored)
    show ?thesis
    proof (cases "make_hash e stored = make_hash e content")
      case True
      then have "w1 = w\<lparr>effects := effects w @ [Printed (py ''No change'')]\<rparr>"
        using noop[OF Some True] run by simp
      then show ?thesis using Some True by simp
    next
      case False
      then have "change_detected cfg e content (make_hash e content) (Some stored) w = (Inr (), w1)"
        using main_with_snapshot[OF assms Some] run by simp
      then have "snapshot_file w1 = Some content"
        unfolding change_detected_outcome Let_def by (auto split: option.splits)
      then show ?thesis by simp
    qed
  qed
  show ?thesis using noop second by blast
qed

text \<open>
  A run on an unchanged page, and a first run followed by a second one.
\<close>

theorem unchanged_run_is_noop_witness:
  "fetch_content example_config (example_env (py '' new \<newline>'') True id) = Inr (py ''new'')
   \<and> snapshot_file (example_world (Some (py ''new''))) = Some (py ''new'')
   \<and> main example_config (example_env (py '' new \<newline>'') True id) (example_world (Some (py ''new'')))
       = (Inr (), \<lparr>snapshot_file = Some (py ''new''), effects = [Printed (py ''No change'')]\<rparr>)
   \<and> fst (main example_config (example_env (py '' new \<newline>'') True id) (example_world None)) = Inr ()
   \<and> main example_config (example_env (py '' new \<newline>'') True id)
        (snd (main example_config (example_env (py '' new \<newline>'') True id) (example_world None)))
       = no_change (snd (main example_config (example_env (py '' new \<newline>'') True id) (example_world None)))"
proof -
  let ?e = "example_env (py '' new \<newline>'') True id"
  have snap: "snapshot_file (example_world (Some (py ''new''))) = Some (py ''new'')"
    by (simp add: example_world_def)
  have first: "fst (main example_config ?e (example_world None)) = Inr ()"
    using main_without_snapshot[OF example_fetch_new, of "example_world None" True id]
    unfolding change_detected_outcome Let_def
    by (simp add: example_world_def example_env_def)
  then have run: "main example_config ?e (example_world None)
      = (Inr (), snd (main example_config ?e (example_world None)))"
    by (metis prod.collapse)
  note noop = unchanged_run_is_noop[OF example_fetch_new[of True id]]
  have a: "main example_config ?e (example_world (Some (py ''new'')))
       = (Inr (), \<lparr>snapshot_file = Some (py ''new''), effects = [Printed (py ''No change'')]\<rparr>)"
    using noop[of "example_world (Some (py ''new''))"] snap
    by (simp add: example_world_def)
  have b: "main example_config ?e (snd (main example_config ?e (example_world None)))
       = no_change (snd (main example_config ?e (example_world None)))"
    using noop[of "example_world None"] run
    by (simp add: no_change_def print_line_def)
  show ?thesis using example_fetch_new snap a first b by simp
qed

text \<open>
  C9. send_email hands to the SMTP session a message with the configured sender and
  recipient and the given subject; its text is the summary followed, when a non-empty diff
  text is given, by the heading "--- DIFF ---" and the diff, and the summary alone when no
  diff text, or an empty one, is given.
\<close>

theorem send_email_composes_message:
  "send_email cfg e subject body diff_text w =
     (case smtp_session e (compose_message cfg subject body diff_text) of
        Some err \<Rightarrow> (Inl err, w)
      | None \<Rightarrow> (Inr (), w\<lparr>effects := effects w @ [Sent (compose_message cfg subject body diff_text)]\<rparr>))
   \<and> msg_From (compose_message cfg subject body diff_text) = FROM_EMAIL cfg
   \<and> msg_To (compose_message cfg subject body diff_text) = TO_EMAIL cfg
   \<and> msg_Subject (compose_message cfg subject body diff_text) = subject
   \<and> msg_content (compose_message cfg subject body None) = body
   \<and> msg_content (compose_message cfg subject body (Some [])) = body
   \<and> (d \<noteq> [] \<longrightarrow> msg_content (compose_message cfg subject body (Some d))
                   = body @ py ''\<newline>\<newline>--- DIFF ---\<newline>'' @ d)"
  by (simp add: send_email_def compose_message_def Let_def split: option.splits)

text \<open>
  A message with a diff of one line, and one without diff.
\<close>

theorem send_email_composes_message_witness:
  "py ''+a'' \<noteq> []
   \<and> msg_content (compose_message example_config (py ''subject'') (py ''summary'') (Some (py ''+a'')))
       = py ''summary\<newline>\<newline>--- DIFF ---\<newline>+a''
   \<and> msg_content (compose_message example_config (py ''subject'') (py ''summary'') None) = py ''summary''
   \<and> msg_From (compose_message example_config (py ''subject'') (py ''summary'') None) = py ''from@example.org''
   \<and> msg_To (compose_message example_config (py ''subject'') (py ''summary'') None) = py ''to@example.org''
   \<and> msg_Subject (compose_message example_config (py ''subject'') (py ''summary'') None) = py ''subject''"
proof -
  have ne: "py ''+a'' \<noteq> []" by (simp add: py_def)
  show ?thesis
    using send_email_composes_message[of example_config "example_env [] True id" "py ''subject''"
        "py ''summary''" None "example_world None" "py ''+a''"] ne
    by (simp add: example_config_def py_def)
qed

end
